theory Spec2Isabelle
  imports Main
begin

section \<open>The OTP entry widget: \<open>OTPComponent\<close> of \<open>src/app/signin/page.tsx\<close>\<close>

text \<open>
  The component keeps its state in React \<open>useState\<close> cells and changes it from event
  handlers. Each handler is embedded as a function from the state it reads to the state it
  leaves and the list of effects it performs outside the component (focus calls, network
  calls, callbacks of the parent, timeouts). JavaScript strings are \<open>string\<close>; the code
  buffer \<open>otp\<close> is a list of strings, one per input cell.

  The handlers index the buffer only with the index of a rendered input cell
  (\<open>otp.map((digit, idx) => ...)\<close>), so every statement below is about \<open>idx < 5\<close> on a
  buffer of five slots; a JavaScript write beyond the end of an array is not modelled.
\<close>

subsection \<open>Characters and regular expressions\<close>

text \<open>\<open>\d\<close> of a JavaScript regular expression: the ten ASCII digits.\<close>

definition isDigit :: "char \<Rightarrow> bool" where
  "isDigit c \<longleftrightarrow> c \<in> set ''0123456789''"

text \<open>\<open>/^\d?$/.test(value)\<close>: the whole string is empty or one digit.\<close>

fun test_opt_digit :: "string \<Rightarrow> bool" where
  "test_opt_digit [] = True"
| "test_opt_digit [c] = isDigit c"
| "test_opt_digit (c # d # cs) = False"

text \<open>\<open>pastedData.replace(/\D/g, '').slice(0, 5)\<close>\<close>

definition paste_digits :: "string \<Rightarrow> string" where
  "paste_digits pastedData = take 5 (filter isDigit pastedData)"

subsection \<open>Editing the code buffer\<close>

text \<open>
  Every editing handler returns the buffer it leaves (the argument of \<open>setOtp\<close>, or the
  old buffer when \<open>setOtp\<close> is not called) and the input cell it calls \<open>focus()\<close> on, if any.
\<close>

definition handleChange :: "string \<Rightarrow> nat \<Rightarrow> string list \<Rightarrow> string list \<times> nat option" where
  "handleChange val idx otp =
     (if \<not> test_opt_digit val then (otp, None)
      else (otp[idx := val], if val \<noteq> [] \<and> idx < 4 then Some (idx + 1) else None))"

text \<open>
  The loop \<open>for (let i = idx; i < newOtp.length; i++) if (newOtp[i] !== '') lastFilledIndex = i\<close>,
  started with \<open>lastFilledIndex = -1\<close>.
\<close>

definition lastFilledIndex :: "string list \<Rightarrow> nat \<Rightarrow> int" where
  "lastFilledIndex newOtp idx =
     fold (\<lambda>i l. if newOtp ! i \<noteq> [] then int i else l) [idx..<length newOtp] (- 1)"

text \<open>The loop \<open>for (let i = idx; i < lastFilledIndex; i++) newOtp[i] = newOtp[i + 1]\<close>.\<close>

definition shiftLeft :: "string list \<Rightarrow> nat \<Rightarrow> int \<Rightarrow> string list" where
  "shiftLeft newOtp idx l = fold (\<lambda>i xs. xs[i := xs ! (i + 1)]) [idx..<nat l] newOtp"

definition handleKeyDown :: "string \<Rightarrow> nat \<Rightarrow> string list \<Rightarrow> string list \<times> nat option" where
  "handleKeyDown key idx otp =
     (if key = ''Backspace'' then
        (if otp ! idx \<noteq> [] then (otp[idx := []], None)
         else
           (let l = lastFilledIndex otp idx in
            if l > int idx then ((shiftLeft otp idx l)[nat l := []], None)
            else if idx > 0 then (otp[idx - 1 := []], Some (idx - 1))
            else (otp, None)))
      else if key = ''Delete'' then
        (if otp ! idx \<noteq> [] then
           (let l = lastFilledIndex otp idx;
                shifted = shiftLeft otp idx l
            in (if l \<ge> int idx then shifted[nat l := []] else shifted, None))
         else (otp, None))
      else (otp, None))"

definition handlePaste :: "string \<Rightarrow> string list \<Rightarrow> string list \<times> nat option" where
  "handlePaste pastedData otp =
     (let digits = paste_digits pastedData in
      if length digits > 0 then
        (let filled = fold (\<lambda>i xs. xs[i := [digits ! i]]) [0..<min (length digits) 5] otp;
             cleared = fold (\<lambda>i xs. xs[i := []]) [length digits..<5] filled
         in (cleared, Some (min (length digits) 4)))
      else (otp, None))"

text \<open>The invariant of the data model: five slots, each empty or one decimal digit.\<close>

definition slot_ok :: "string \<Rightarrow> bool" where
  "slot_ok d \<longleftrightarrow> d = [] \<or> (length d = 1 \<and> isDigit (hd d))"

definition otp_ok :: "string list \<Rightarrow> bool" where
  "otp_ok otp \<longleftrightarrow> length otp = 5 \<and> list_all slot_ok otp"

subsection \<open>The component state\<close>

record widget =
  otp :: "string list"
  timer :: int
  disabledResend :: bool
  isVerified :: bool
  isModalOpen :: bool
  isError :: bool
  modalMessage :: string
  isOtpExpired :: bool
  isVerifying :: bool
  isResending :: bool

text \<open>The initial values of the \<open>useState\<close> cells.\<close>

definition initial :: widget where
  "initial =
     \<lparr>otp = [[], [], [], [], []], timer = 60, disabledResend = True, isVerified = False,
      isModalOpen = False, isError = False, modalMessage = [], isOtpExpired = False,
      isVerifying = False, isResending = False\<rparr>"

text \<open>
  What a handler does outside the component: \<open>inputsRef.current[i]?.focus()\<close>, the two calls
  of the authentication service, the callbacks of the parent, and
  \<open>setTimeout(..., ms)\<close> of the success branch of \<open>handleVerify\<close>.
\<close>

datatype effect =
    Focus nat
  | VerifyOTP string string
  | SendOTPInSignup string string
  | OnResendOTP string
  | OnOTPExpired
  | OnVerificationSuccess
  | SetTimeout nat

fun is_verify_call :: "effect \<Rightarrow> bool" where
  "is_verify_call (VerifyOTP code ref) = True"
| "is_verify_call _ = False"

text \<open>An editing handler run on the state: \<open>setOtp\<close> and the focus call.\<close>

definition edit :: "(string list \<Rightarrow> string list \<times> nat option) \<Rightarrow> widget \<Rightarrow> widget \<times> effect list" where
  "edit h s =
     (case h (otp s) of (newOtp, f) \<Rightarrow>
        (s\<lparr>otp := newOtp\<rparr>, case f of None \<Rightarrow> [] | Some i \<Rightarrow> [Focus i]))"

subsection \<open>The countdown\<close>

text \<open>
  The body of the \<open>useEffect\<close> on \<open>[timer, onOTPExpired]\<close>: while the timer is positive it
  only arms the one-second interval; otherwise it unlocks resend, marks the code expired
  and tells the parent, when the optional callback is there.
\<close>

definition timerEffect :: "bool \<Rightarrow> widget \<Rightarrow> widget \<times> effect list" where
  "timerEffect hasOnOTPExpired s =
     (if timer s > 0 then (s, [])
      else (s\<lparr>disabledResend := False, isOtpExpired := True\<rparr>,
            if hasOnOTPExpired then [OnOTPExpired] else []))"

text \<open>
  One firing of the interval, \<open>setTimer(prev => prev - 1)\<close>, followed by the effect of the
  render it causes. The interval exists only while the timer is positive.
\<close>

definition tick :: "bool \<Rightarrow> widget \<Rightarrow> widget \<times> effect list" where
  "tick hasOnOTPExpired s = timerEffect hasOnOTPExpired (s\<lparr>timer := timer s - 1\<rparr>)"

subsection \<open>Verification\<close>

text \<open>
  What \<open>await verifyOTP(code, referenceId)\<close> gives back: a response with its \<open>statusCode\<close>,
  or a thrown error with its \<open>message\<close>, if it has one.
\<close>

datatype verify_result = Resolved string | Rejected "string option"

text \<open>
  \<open>String.prototype.toLowerCase\<close> on the characters below 256 and
  \<open>String.prototype.includes\<close>.
\<close>

definition toLowerCase_char :: "char \<Rightarrow> char" where
  "toLowerCase_char c =
     (let n = (of_char c :: nat)
      in if (65 \<le> n \<and> n \<le> 90) \<or> (192 \<le> n \<and> n \<le> 222 \<and> n \<noteq> 215)
         then char_of (n + 32) else c)"

definition toLowerCase :: "string \<Rightarrow> string" where
  "toLowerCase s = map toLowerCase_char s"

fun str_includes :: "string \<Rightarrow> string \<Rightarrow> bool" where
  "str_includes [] t = (t = [])"
| "str_includes (c # cs) t = (take (length t) (c # cs) = t \<or> str_includes cs t)"

text \<open>\<open>handleVerify\<close> up to the \<open>await\<close>: the guards, and the call when they pass.\<close>

definition handleVerify_sync :: "string \<Rightarrow> widget \<Rightarrow> widget \<times> effect list" where
  "handleVerify_sync referenceId s =
     (if isVerifying s then (s, [])
      else
        (let code = concat (otp s) in
         if length code \<noteq> 5 then
           (s\<lparr>isError := True, modalMessage := ''Please enter all 5 digits.'',
              isModalOpen := True\<rparr>, [])
         else if isOtpExpired s \<or> referenceId = [] then
           (s\<lparr>isError := True, modalMessage := ''OTP has expired. Please request a new one.'',
              isModalOpen := True\<rparr>, [])
         else (s\<lparr>isVerifying := True\<rparr>, [VerifyOTP code referenceId])))"

text \<open>
  \<open>handleVerify\<close> from the \<open>await\<close> on: the branches on the status code, the \<open>catch\<close>
  and the \<open>finally\<close>. The setters write constants, so the continuation applies to the
  state the component has when the call settles.
\<close>

definition handleVerify_await :: "verify_result \<Rightarrow> widget \<Rightarrow> widget \<times> effect list" where
  "handleVerify_await r s =
     (case
        (case r of
           Resolved statusCode \<Rightarrow>
             if statusCode = ''1000'' then
               (s\<lparr>isVerified := True, isError := False,
                  modalMessage := ''OTP Verified Successfully!'', isModalOpen := True\<rparr>,
                [SetTimeout 2000])
             else if statusCode = ''1001'' then
               (s\<lparr>isError := True, modalMessage := ''Invalid OTP. Please try again.'',
                  isModalOpen := True\<rparr>, [])
             else if statusCode = ''1002'' \<or> statusCode = ''1003'' then
               (s\<lparr>isOtpExpired := True, isError := True,
                  modalMessage := ''OTP has expired. Please request a new one.'',
                  isModalOpen := True\<rparr>, [])
             else
               (s\<lparr>isError := True, modalMessage := ''Something went wrong. Please try again.'',
                  isModalOpen := True\<rparr>, [])
         | Rejected message \<Rightarrow>
             if (case message of None \<Rightarrow> False
                 | Some m \<Rightarrow> m \<noteq> [] \<and> str_includes (toLowerCase m) ''expired'') then
               (s\<lparr>isOtpExpired := True, isError := True,
                  modalMessage := ''OTP has expired. Please request a new one.'',
                  isModalOpen := True\<rparr>, [])
             else
               (s\<lparr>isError := True, modalMessage := ''Failed to verify OTP. Try again later.'',
                  isModalOpen := True\<rparr>, []))
      of (s', effs) \<Rightarrow> (s'\<lparr>isVerifying := False\<rparr>, effs))"

text \<open>The callback of \<open>setTimeout\<close> in the success branch.\<close>

definition verifiedTimeout :: "widget \<Rightarrow> widget \<times> effect list" where
  "verifiedTimeout s = (s\<lparr>isModalOpen := False\<rparr>, [OnVerificationSuccess])"

text \<open>
  The whole of \<open>handleVerify\<close> when nothing else happens while the call is pending;
  \<open>verifyOTP\<close> is the service, as a function to the result it settles with.
\<close>

definition handleVerify ::
  "(string \<Rightarrow> string \<Rightarrow> verify_result) \<Rightarrow> string \<Rightarrow> widget \<Rightarrow> widget \<times> effect list" where
  "handleVerify verifyOTP referenceId s =
     (case handleVerify_sync referenceId s of (s1, effs1) \<Rightarrow>
        if list_ex is_verify_call effs1 then
          (case handleVerify_await (verifyOTP (concat (otp s)) referenceId) s1 of
             (s2, effs2) \<Rightarrow> (s2, effs1 @ effs2))
        else (s1, effs1))"

subsection \<open>Resend\<close>

text \<open>
  What \<open>await sendOTPInSignup(phone, countryCode)\<close> gives back: a response with its
  \<open>referenceId\<close>, if it has one, or a thrown error with its \<open>message\<close>.
\<close>

datatype send_result = SendResolved "string option" | SendRejected "string option"

text \<open>
  \<open>handleResendOTP\<close> up to the \<open>await\<close>. \<open>substring(0, length - 10)\<close> takes a negative
  end as 0, as the subtraction on \<open>nat\<close> does.
\<close>

definition handleResendOTP_sync :: "string \<Rightarrow> widget \<Rightarrow> widget \<times> effect list" where
  "handleResendOTP_sync phoneNumber s =
     (if disabledResend s \<or> isResending s then (s, [])
      else
        (let countryCode = take (length phoneNumber - 10) phoneNumber;
             phone = drop (length countryCode) phoneNumber
         in (s\<lparr>isResending := True\<rparr>, [SendOTPInSignup phone countryCode])))"

text \<open>The \<open>catch\<close> of \<open>handleResendOTP\<close>: \<open>error.message || 'Failed to resend OTP'\<close>.\<close>

definition resend_catch :: "string option \<Rightarrow> widget \<Rightarrow> widget \<times> effect list" where
  "resend_catch message s =
     (s\<lparr>isError := True,
        modalMessage := (case message of None \<Rightarrow> ''Failed to resend OTP''
                         | Some m \<Rightarrow> if m \<noteq> [] then m else ''Failed to resend OTP''),
        isModalOpen := True\<rparr>, [])"

text \<open>
  \<open>handleResendOTP\<close> from the \<open>await\<close> on. A response without a reference id throws inside
  the \<open>try\<close> and lands in the same \<open>catch\<close>.
\<close>

definition handleResendOTP_await :: "send_result \<Rightarrow> widget \<Rightarrow> widget \<times> effect list" where
  "handleResendOTP_await r s =
     (case
        (case r of
           SendResolved res_referenceId \<Rightarrow>
             (case res_referenceId of
                None \<Rightarrow> resend_catch (Some ''Failed to get reference ID for new OTP'') s
              | Some newReferenceId \<Rightarrow>
                  if newReferenceId \<noteq> [] then
                    (s\<lparr>timer := 60, disabledResend := True, isOtpExpired := False,
                       otp := [[], [], [], [], []], isVerified := False, isError := False,
                       modalMessage := ''New OTP has been sent to your mobile number.'',
                       isModalOpen := True\<rparr>,
                     [OnResendOTP newReferenceId, Focus 0])
                  else resend_catch (Some ''Failed to get reference ID for new OTP'') s)
         | SendRejected message \<Rightarrow> resend_catch message s)
      of (s', effs) \<Rightarrow> (s'\<lparr>isResending := False\<rparr>, effs))"

definition handleResendOTP ::
  "(string \<Rightarrow> string \<Rightarrow> send_result) \<Rightarrow> string \<Rightarrow> widget \<Rightarrow> widget \<times> effect list" where
  "handleResendOTP sendOTPInSignup phoneNumber s =
     (case handleResendOTP_sync phoneNumber s of (s1, effs1) \<Rightarrow>
        (case effs1 of
           [SendOTPInSignup phone countryCode] \<Rightarrow>
             (case handleResendOTP_await (sendOTPInSignup phone countryCode) s1 of
                (s2, effs2) \<Rightarrow> (s2, effs1 @ effs2))
         | _ \<Rightarrow> (s1, effs1)))"

subsection \<open>The component as a transition system\<close>

text \<open>
  The properties the parent passes: the phone number, the session reference, and whether
  the optional \<open>onOTPExpired\<close> is given. The parent may change them between two events.
\<close>

record props =
  prop_phoneNumber :: string
  prop_referenceId :: string
  prop_onOTPExpired :: bool

text \<open>
  Everything that can happen to the component: the events of the input cells, a firing of
  the interval, a run of the timer effect without a change of the timer (the parent passes
  a new \<open>onOTPExpired\<close>), the two buttons, the two network calls settling, the timeout of
  the success branch, and the Close button of the modal.
\<close>

datatype event =
    Change string nat
  | KeyDown string nat
  | Paste string
  | Tick
  | EffectRerun
  | PressVerify
  | VerifySettled verify_result
  | TimeoutFired
  | PressResend
  | ResendSettled send_result
  | CloseModal

text \<open>
  One event; \<open>None\<close> when the event cannot happen in the state: no input cell beyond the
  fifth, no firing of an interval that is not armed, no settling of a call that is not
  pending. The \<open>disabled\<close> attributes of the rendered inputs and buttons are not used: a
  handler may run in any state, which only adds reachable states.
\<close>

fun step :: "props \<Rightarrow> event \<Rightarrow> widget \<Rightarrow> (widget \<times> effect list) option" where
  "step p (Change val idx) s = (if idx < 5 then Some (edit (handleChange val idx) s) else None)"
| "step p (KeyDown key idx) s = (if idx < 5 then Some (edit (handleKeyDown key idx) s) else None)"
| "step p (Paste pastedData) s = Some (edit (handlePaste pastedData) s)"
| "step p Tick s = (if timer s > 0 then Some (tick (prop_onOTPExpired p) s) else None)"
| "step p EffectRerun s = Some (timerEffect (prop_onOTPExpired p) s)"
| "step p PressVerify s = Some (handleVerify_sync (prop_referenceId p) s)"
| "step p (VerifySettled r) s = (if isVerifying s then Some (handleVerify_await r s) else None)"
| "step p TimeoutFired s = Some (verifiedTimeout s)"
| "step p PressResend s = Some (handleResendOTP_sync (prop_phoneNumber p) s)"
| "step p (ResendSettled r) s = (if isResending s then Some (handleResendOTP_await r s) else None)"
| "step p CloseModal s = Some (s\<lparr>isModalOpen := False\<rparr>, [])"

inductive reachable :: "widget \<Rightarrow> bool" where
  reachable_initial: "reachable initial"
| reachable_step: "reachable s \<Longrightarrow> step p e s = Some (s', effs) \<Longrightarrow> reachable s'"

text \<open>A resend response that carries a new session reference.\<close>

fun carries_reference :: "send_result \<Rightarrow> bool" where
  "carries_reference (SendResolved (Some newReferenceId)) = (newReferenceId \<noteq> [])"
| "carries_reference _ = False"

subsection \<open>Notions used to state the properties\<close>

text \<open>
  Removing slot \<open>a\<close> of a buffer: the slots to its right move left by one and the last
  slot becomes empty.
\<close>

definition remove_slot :: "nat \<Rightarrow> string list \<Rightarrow> string list" where
  "remove_slot a xs = take a xs @ drop (Suc a) xs @ [[]]"

text \<open>
  The input cell that has the focus after a key event on cell \<open>idx\<close>: the cell the handler
  focused, or still \<open>idx\<close> when it made no focus call.
\<close>

definition focus_after :: "nat \<Rightarrow> string list \<times> nat option \<Rightarrow> nat" where
  "focus_after idx r = (case snd r of None \<Rightarrow> idx | Some i \<Rightarrow> i)"

section \<open>Properties of the buffer editing\<close>

subsection \<open>The two loops of the key handler\<close>

lemma lastFilled_fold_none:
  "\<forall>j. a \<le> j \<and> j < b \<longrightarrow> xs ! j = [] \<Longrightarrow>
   fold (\<lambda>i l. if xs ! i \<noteq> [] then int i else l) [a..<b] l0 = l0"
  by (induction b) auto

lemma lastFilled_fold_some:
  "a \<le> m \<Longrightarrow> m < b \<Longrightarrow> xs ! m \<noteq> [] \<Longrightarrow> \<forall>j. m < j \<and> j < b \<longrightarrow> xs ! j = [] \<Longrightarrow>
   fold (\<lambda>i l. if xs ! i \<noteq> [] then int i else l) [a..<b] l0 = int m"
proof (induction b)
  case 0 then show ?case by simp
next
  case (Suc b)
  show ?case
  proof (cases "m = b")
    case True with Suc.prems show ?thesis by simp
  next
    case False
    with Suc.prems have "m < b" by simp
    moreover have "xs ! b = []" using Suc.prems \<open>m < b\<close> by simp
    ultimately show ?thesis using Suc by simp
  qed
qed

lemma last_filled_exists:
  "\<exists>j. a \<le> j \<and> j < b \<and> xs ! j \<noteq> [] \<Longrightarrow>
   \<exists>m. a \<le> m \<and> m < b \<and> xs ! m \<noteq> [] \<and> (\<forall>j. m < j \<and> j < b \<longrightarrow> xs ! j = [])"
proof (induction b)
  case 0 then show ?case by simp
next
  case (Suc b)
  show ?case
  proof (cases "a \<le> b \<and> xs ! b \<noteq> []")
    case True
    then show ?thesis by (intro exI[of _ b]) auto
  next
    case False
    with Suc.prems have "\<exists>j. a \<le> j \<and> j < b \<and> xs ! j \<noteq> []"
      by (metis less_Suc_eq)
    from Suc.IH[OF this] obtain m where
      m: "a \<le> m" "m < b" "xs ! m \<noteq> []" "\<forall>j. m < j \<and> j < b \<longrightarrow> xs ! j = []" by blast
    with False have "\<forall>j. m < j \<and> j < Suc b \<longrightarrow> xs ! j = []"
      by (metis less_Suc_eq less_imp_le_nat le_trans)
    with m show ?thesis by (intro exI[of _ m]) auto
  qed
qed

lemma lastFilledIndex_none:
  "\<forall>j. idx \<le> j \<and> j < length xs \<longrightarrow> xs ! j = [] \<Longrightarrow> lastFilledIndex xs idx = - 1"
  unfolding lastFilledIndex_def by (rule lastFilled_fold_none)

lemma lastFilledIndex_some:
  "idx \<le> m \<Longrightarrow> m < length xs \<Longrightarrow> xs ! m \<noteq> [] \<Longrightarrow>
   \<forall>j. m < j \<and> j < length xs \<longrightarrow> xs ! j = [] \<Longrightarrow> lastFilledIndex xs idx = int m"
  unfolding lastFilledIndex_def by (rule lastFilled_fold_some)

lemma shift_fold:
  "b < length xs \<Longrightarrow>
   length (fold (\<lambda>i ys. ys[i := ys ! (i + 1)]) [a..<b] xs) = length xs \<and>
   (\<forall>j < length xs. fold (\<lambda>i ys. ys[i := ys ! (i + 1)]) [a..<b] xs ! j =
       (if a \<le> j \<and> j < b then xs ! (j + 1) else xs ! j))"
proof (induction b)
  case 0 then show ?case by simp
next
  case (Suc b)
  then show ?case by (cases "a \<le> b") (auto simp: nth_list_update)
qed

lemma shiftLeft_remove:
  assumes "a \<le> m" "m < length xs" "\<forall>j. m < j \<and> j < length xs \<longrightarrow> xs ! j = []"
  shows "(shiftLeft xs a (int m))[m := []] = remove_slot a xs"
proof (rule nth_equalityI)
  from assms shift_fold[of m xs a]
  show len: "length ((shiftLeft xs a (int m))[m := []]) = length (remove_slot a xs)"
    by (simp add: shiftLeft_def remove_slot_def)
  fix j assume "j < length ((shiftLeft xs a (int m))[m := []])"
  then have j: "j < length xs" using assms shift_fold[of m xs a] by (simp add: shiftLeft_def)
  show "(shiftLeft xs a (int m))[m := []] ! j = remove_slot a xs ! j"
  proof (cases "j < a")
    case True
    with j assms shift_fold[of m xs a] show ?thesis
      by (simp add: shiftLeft_def remove_slot_def nth_append nth_list_update)
  next
    case False
    show ?thesis
    proof (cases "Suc j < length xs")
      case True
      with False j assms shift_fold[of m xs a] show ?thesis
        by (auto simp: shiftLeft_def remove_slot_def nth_append nth_list_update)
    next
      case False
      with \<open>\<not> j < a\<close> j assms shift_fold[of m xs a] show ?thesis
        by (auto simp: shiftLeft_def remove_slot_def nth_append nth_list_update)
    qed
  qed
qed

subsection \<open>Backspace and Delete\<close>

lemma backspace_filled:
  "buf ! idx \<noteq> [] \<Longrightarrow> handleKeyDown ''Backspace'' idx buf = (buf[idx := []], None)"
  by (simp add: handleKeyDown_def)

lemma backspace_shift:
  assumes "idx < length buf" "buf ! idx = []" "\<exists>j. idx < j \<and> j < length buf \<and> buf ! j \<noteq> []"
  shows "handleKeyDown ''Backspace'' idx buf = (remove_slot idx buf, None)"
proof -
  from assms(3) have "\<exists>j. idx \<le> j \<and> j < length buf \<and> buf ! j \<noteq> []"
    by (meson less_imp_le_nat)
  from last_filled_exists[OF this] obtain m where
    m: "idx \<le> m" "m < length buf" "buf ! m \<noteq> []" "\<forall>j. m < j \<and> j < length buf \<longrightarrow> buf ! j = []"
    by blast
  with assms(2) have "idx < m" by (cases "idx = m") auto
  have l: "lastFilledIndex buf idx = int m" using m by (rule lastFilledIndex_some)
  have "(shiftLeft buf idx (int m))[m := []] = remove_slot idx buf"
    using m(1,2,4) by (rule shiftLeft_remove)
  with l \<open>idx < m\<close> assms(2) show ?thesis by (simp add: handleKeyDown_def)
qed

lemma backspace_nothing_right:
  assumes "buf ! idx = []" "\<forall>j. idx < j \<and> j < length buf \<longrightarrow> buf ! j = []"
  shows "handleKeyDown ''Backspace'' idx buf =
           (if 0 < idx then (buf[idx - 1 := []], Some (idx - 1)) else (buf, None))"
proof -
  from assms have "\<forall>j. idx \<le> j \<and> j < length buf \<longrightarrow> buf ! j = []"
    by (metis le_neq_implies_less)
  then have "lastFilledIndex buf idx = - 1" by (rule lastFilledIndex_none)
  with assms(1) show ?thesis by (simp add: handleKeyDown_def)
qed

lemma delete_filled:
  assumes "idx < length buf" "buf ! idx \<noteq> []"
  shows "handleKeyDown ''Delete'' idx buf = (remove_slot idx buf, None)"
proof -
  from assms have "\<exists>j. idx \<le> j \<and> j < length buf \<and> buf ! j \<noteq> []" by blast
  from last_filled_exists[OF this] obtain m where
    m: "idx \<le> m" "m < length buf" "buf ! m \<noteq> []" "\<forall>j. m < j \<and> j < length buf \<longrightarrow> buf ! j = []"
    by blast
  have l: "lastFilledIndex buf idx = int m" using m by (rule lastFilledIndex_some)
  have "(shiftLeft buf idx (int m))[m := []] = remove_slot idx buf"
    using m(1,2,4) by (rule shiftLeft_remove)
  with l m(1) assms(2) show ?thesis by (simp add: handleKeyDown_def Let_def)
qed

lemma delete_empty: "buf ! idx = [] \<Longrightarrow> handleKeyDown ''Delete'' idx buf = (buf, None)"
  by (simp add: handleKeyDown_def)

text \<open>
  Claim C6, amended. On a buffer of five slots and a slot index \<open>idx\<close>: Backspace on a
  non-empty slot clears it in place, with no focus call; on an empty slot with a non-empty
  slot to its right it removes slot \<open>idx\<close>, so that all slots to the right move left by one and
  the last slot becomes empty, and it makes no focus call; on an empty slot with nothing to
  its right it clears slot \<open>idx - 1\<close> and focuses it when \<open>idx > 0\<close>, and does nothing when
  \<open>idx = 0\<close>.
\<close>
theorem backspace_behaviour:
  assumes "length buf = 5" "idx < 5"
  shows "(buf ! idx \<noteq> [] \<longrightarrow> handleKeyDown ''Backspace'' idx buf = (buf[idx := []], None))
       \<and> (buf ! idx = [] \<and> (\<exists>j. idx < j \<and> j < 5 \<and> buf ! j \<noteq> []) \<longrightarrow>
            handleKeyDown ''Backspace'' idx buf = (remove_slot idx buf, None))
       \<and> (buf ! idx = [] \<and> (\<forall>j. idx < j \<and> j < 5 \<longrightarrow> buf ! j = []) \<and> 0 < idx \<longrightarrow>
            handleKeyDown ''Backspace'' idx buf = (buf[idx - 1 := []], Some (idx - 1)))
       \<and> (buf ! idx = [] \<and> (\<forall>j. idx < j \<and> j < 5 \<longrightarrow> buf ! j = []) \<and> idx = 0 \<longrightarrow>
            handleKeyDown ''Backspace'' idx buf = (buf, None))"
  using assms backspace_filled[of buf idx] backspace_shift[of idx buf]
    backspace_nothing_right[of buf idx]
  by auto

text \<open>The four cases of C6 on concrete buffers.\<close>
theorem backspace_behaviour_witness:
  "handleKeyDown ''Backspace'' 1 [''3'', ''4'', [], [], []] = ([''3'', [], [], [], []], None)
 \<and> handleKeyDown ''Backspace'' 1 [''3'', [], ''2'', [], ''5''] = ([''3'', ''2'', [], ''5'', []], None)
 \<and> handleKeyDown ''Backspace'' 2 [''3'', ''4'', [], [], []] = ([''3'', [], [], [], []], Some 1)
 \<and> handleKeyDown ''Backspace'' 0 [[], [], [], [], []] = ([[], [], [], [], []], None)"
proof -
  have a: "\<exists>j. (1::nat) < j \<and> j < 5 \<and> [''3'', [], ''2'', [], ''5''] ! j \<noteq> []"
    by (intro exI[of _ 2]) simp
  have b: "\<forall>j. (2::nat) < j \<and> j < 5 \<longrightarrow> [''3'', ''4'', [], [], []] ! j = []"
    by (auto simp: nth_Cons split: nat.splits)
  have c: "\<forall>j. (0::nat) < j \<and> j < 5 \<longrightarrow> [[], [], [], [], []] ! j = ([]::string)"
    by (auto simp: nth_Cons split: nat.splits)
  show ?thesis
    using backspace_behaviour[of "[''3'', ''4'', [], [], []]" 1]
      backspace_behaviour[of "[''3'', [], ''2'', [], ''5'']" 1] a
      backspace_behaviour[of "[''3'', ''4'', [], [], []]" 2] b
      backspace_behaviour[of "[[], [], [], [], []]" 0] c
    by (simp add: remove_slot_def)
qed

text \<open>
  Claim C6 as stated fails: Backspace on the empty slot 0 of \<open>['', '1', '', '', '']\<close> shifts
  the digit into slot 0 and calls no \<open>focus()\<close>; the focus stays on slot 0, which is not empty
  afterwards.
\<close>
theorem backspace_focus_counterexample:
  "[[], ''1'', [], [], []] ! 0 = ([]::string) \<and> [[], ''1'', [], [], []] ! 1 \<noteq> ([]::string)
 \<and> handleKeyDown ''Backspace'' 0 [[], ''1'', [], [], []] = ([''1'', [], [], [], []], None)
 \<and> fst (handleKeyDown ''Backspace'' 0 [[], ''1'', [], [], []])
      ! focus_after 0 (handleKeyDown ''Backspace'' 0 [[], ''1'', [], [], []]) \<noteq> []"
proof -
  have "\<exists>j. (0::nat) < j \<and> j < length [[], ''1'', [], [], []] \<and> [[], ''1'', [], [], []] ! j \<noteq> ([]::string)"
    by (intro exI[of _ 1]) simp
  then have "handleKeyDown ''Backspace'' 0 [[], ''1'', [], [], []] = ([''1'', [], [], [], []], None)"
    using backspace_shift[of 0 "[[], ''1'', [], [], []]"] by (simp add: remove_slot_def)
  then show ?thesis by (simp add: focus_after_def)
qed

text \<open>
  Claim C9, amended. On a buffer of five slots: Delete on a non-empty slot \<open>idx\<close> removes that
  slot (the digits to its right move left by one and the last slot becomes empty), which is
  the shift Backspace performs on an empty slot; Delete on an empty slot changes nothing.
  In both cases there is no focus call.
\<close>
theorem delete_behaviour:
  assumes "length buf = 5" "idx < 5"
  shows "(buf ! idx \<noteq> [] \<longrightarrow> handleKeyDown ''Delete'' idx buf = (remove_slot idx buf, None))
       \<and> (buf ! idx = [] \<longrightarrow> handleKeyDown ''Delete'' idx buf = (buf, None))"
  using assms delete_filled[of idx buf] delete_empty[of buf idx] by auto

text \<open>Both cases of C9 on concrete buffers.\<close>
theorem delete_behaviour_witness:
  "handleKeyDown ''Delete'' 1 [''3'', ''1'', ''2'', [], []] = ([''3'', ''2'', [], [], []], None)
 \<and> handleKeyDown ''Delete'' 2 [''3'', ''4'', [], [], ''7''] = ([''3'', ''4'', [], [], ''7''], None)"
  using delete_behaviour[of "[''3'', ''1'', ''2'', [], []]" 1]
    delete_behaviour[of "[''3'', ''4'', [], [], ''7'']" 2]
  by (simp add: remove_slot_def)

text \<open>
  Claim C9 as stated fails on an empty slot: Delete on slot 0 of \<open>['', '1', '', '', '']\<close>
  leaves the buffer as it is and does not shift the digit left.
\<close>
theorem delete_empty_slot_counterexample:
  "[[], ''1'', [], [], []] ! 0 = ([]::string)
 \<and> handleKeyDown ''Delete'' 0 [[], ''1'', [], [], []] = ([[], ''1'', [], [], []], None)
 \<and> handleKeyDown ''Delete'' 0 [[], ''1'', [], [], []] \<noteq> (remove_slot 0 [[], ''1'', [], [], []], None)"
  by (simp add: handleKeyDown_def remove_slot_def)

subsection \<open>Paste\<close>

lemma fill_fold:
  "k \<le> length xs \<Longrightarrow>
   length (fold (\<lambda>i ys. ys[i := [d ! i]]) [0..<k] xs) = length xs \<and>
   (\<forall>j < length xs. fold (\<lambda>i ys. ys[i := [d ! i]]) [0..<k] xs ! j =
       (if j < k then [d ! j] else xs ! j))"
  by (induction k) (auto simp: nth_list_update less_Suc_eq)

lemma clear_fold:
  "b \<le> length xs \<Longrightarrow>
   length (fold (\<lambda>i ys. ys[i := []]) [a..<b] xs) = length xs \<and>
   (\<forall>j < length xs. fold (\<lambda>i ys. ys[i := []]) [a..<b] xs ! j =
       (if a \<le> j \<and> j < b then [] else xs ! j))"
proof (induction b)
  case 0 then show ?case by simp
next
  case (Suc b)
  then show ?case by (cases "a \<le> b") (auto simp: nth_list_update)
qed

lemma paste_digits_length: "length (paste_digits pastedData) \<le> 5"
  by (simp add: paste_digits_def)

lemma paste_digits_isDigit: "c \<in> set (paste_digits pastedData) \<Longrightarrow> isDigit c"
  by (auto simp: paste_digits_def dest: in_set_takeD)

lemma handlePaste_filled:
  assumes "length buf = 5" "0 < length (paste_digits pastedData)"
  shows "handlePaste pastedData buf =
           (map (\<lambda>c. [c]) (paste_digits pastedData) @ replicate (5 - length (paste_digits pastedData)) [],
            Some (min (length (paste_digits pastedData)) 4))"
proof -
  define digits where "digits = paste_digits pastedData"
  define filled where "filled = fold (\<lambda>i xs. xs[i := [digits ! i]]) [0..<min (length digits) 5] buf"
  define cleared where "cleared = fold (\<lambda>i xs. xs[i := []]) [length digits..<5] filled"
  have k: "length digits \<le> 5" unfolding digits_def by (rule paste_digits_length)
  have f: "length filled = 5" "\<forall>j<5. filled ! j = (if j < length digits then [digits ! j] else buf ! j)"
    using fill_fold[of "min (length digits) 5" buf digits] assms(1) k by (auto simp: filled_def)
  have c: "length cleared = 5" "\<forall>j<5. cleared ! j = (if length digits \<le> j then [] else filled ! j)"
    using clear_fold[of 5 filled "length digits"] f(1) by (auto simp: cleared_def)
  have "cleared = map (\<lambda>c. [c]) digits @ replicate (5 - length digits) []"
  proof (rule nth_equalityI)
    show "length cleared = length (map (\<lambda>c. [c]) digits @ replicate (5 - length digits) [])"
      using c(1) k by simp
    fix j assume "j < length cleared"
    then have "j < 5" using c(1) by simp
    then show "cleared ! j = (map (\<lambda>c. [c]) digits @ replicate (5 - length digits) []) ! j"
      using c(2) f(2) k by (auto simp: nth_append)
  qed
  then show ?thesis using assms(2)
    by (simp add: handlePaste_def Let_def digits_def[symmetric] filled_def cleared_def)
qed

text \<open>
  Claim C5, amended. When the pasted text has \<open>k \<ge> 1\<close> digits after stripping the
  non-digits and truncating to 5, paste fills the slots \<open>[0, k)\<close> with these digits in order,
  clears the slots \<open>[k, 5)\<close> and focuses slot \<open>k\<close>, the first empty one, or slot 4 when
  \<open>k = 5\<close>.
\<close>
theorem paste_fills_prefix:
  assumes "length buf = 5" and "digits = paste_digits pastedData" and "k = length digits"
    and "0 < k"
  shows "k \<le> 5 \<and> (\<forall>c \<in> set digits. isDigit c)
       \<and> handlePaste pastedData buf =
           (map (\<lambda>c. [c]) digits @ replicate (5 - k) [], Some (if k = 5 then 4 else k))
       \<and> (\<forall>j < k. fst (handlePaste pastedData buf) ! j = [digits ! j])
       \<and> (\<forall>j. k \<le> j \<and> j < 5 \<longrightarrow> fst (handlePaste pastedData buf) ! j = [])"
proof -
  have k5: "k \<le> 5" using assms(2,3) by (simp add: paste_digits_length)
  have dig: "\<forall>c \<in> set digits. isDigit c" using assms(2) by (auto dest: paste_digits_isDigit)
  have "min k 4 = (if k = 5 then 4 else k)" using k5 by auto
  then have eq: "handlePaste pastedData buf =
      (map (\<lambda>c. [c]) digits @ replicate (5 - k) [], Some (if k = 5 then 4 else k))"
    using handlePaste_filled[of buf pastedData] assms by simp
  have "\<forall>j < k. fst (handlePaste pastedData buf) ! j = [digits ! j]"
    using assms(3) by (simp add: eq nth_append)
  moreover have "\<forall>j. k \<le> j \<and> j < 5 \<longrightarrow> fst (handlePaste pastedData buf) ! j = []"
    using assms(3) by (auto simp: eq nth_append)
  ultimately show ?thesis using k5 dig eq by blast
qed

text \<open>C5 for a paste of three digits and for a paste of more than five.\<close>
theorem paste_fills_prefix_witness:
  "handlePaste ''a1b2c3'' [''9'', ''9'', ''9'', ''9'', ''9''] = ([''1'', ''2'', ''3'', [], []], Some 3)
 \<and> handlePaste ''12-34-56'' [[], [], [], [], []] = ([''1'', ''2'', ''3'', ''4'', ''5''], Some 4)"
proof -
  have a: "paste_digits ''a1b2c3'' = ''123''" by (simp add: paste_digits_def isDigit_def)
  have b: "paste_digits ''12-34-56'' = ''12345''" by (simp add: paste_digits_def isDigit_def)
  show ?thesis
    using paste_fills_prefix[of "[''9'', ''9'', ''9'', ''9'', ''9'']" "''123''" "''a1b2c3''" 3]
      paste_fills_prefix[of "[[], [], [], [], []]" "''12345''" "''12-34-56''" 5] a b
    by (simp add: numeral_eq_Suc)
qed

text \<open>
  Claim C5 as stated fails for \<open>k = 0\<close>: pasting \<open>abc\<close> on a full buffer clears no slot and
  makes no focus call.
\<close>
theorem paste_no_digits_counterexample:
  "length (paste_digits ''abc'') = 0
 \<and> handlePaste ''abc'' [''1'', ''2'', ''3'', ''4'', ''5''] = ([''1'', ''2'', ''3'', ''4'', ''5''], None)
 \<and> fst (handlePaste ''abc'' [''1'', ''2'', ''3'', ''4'', ''5'']) ! 0 \<noteq> []"
  by (simp add: handlePaste_def paste_digits_def isDigit_def)

text \<open>
  Claim C10. If the pasted text has no decimal digit, paste leaves every slot of the buffer
  as it was and makes no focus call.
\<close>
theorem paste_without_digits_noop:
  "filter isDigit pastedData = [] \<Longrightarrow> handlePaste pastedData buf = (buf, None)"
  by (simp add: handlePaste_def paste_digits_def)

text \<open>C10 for a pasted text without digits.\<close>
theorem paste_without_digits_noop_witness:
  "filter isDigit ''ab-c d'' = []
 \<and> handlePaste ''ab-c d'' [''1'', [], ''3'', [], ''5''] = ([''1'', [], ''3'', [], ''5''], None)"
proof -
  have h: "filter isDigit ''ab-c d'' = []" by (simp add: isDigit_def)
  show ?thesis using h paste_without_digits_noop[OF h, of "[''1'', [], ''3'', [], ''5'']"] by simp
qed

subsection \<open>The invariant of the buffer\<close>

lemma test_opt_digit_iff: "test_opt_digit val \<longleftrightarrow> val = [] \<or> (\<exists>c. val = [c] \<and> isDigit c)"
  by (cases val rule: test_opt_digit.cases) auto

lemma slot_ok_test: "test_opt_digit val \<Longrightarrow> slot_ok val"
  by (auto simp: test_opt_digit_iff slot_ok_def)

lemma otp_ok_update: "otp_ok buf \<Longrightarrow> slot_ok v \<Longrightarrow> otp_ok (buf[i := v])"
  unfolding otp_ok_def list_all_iff by (auto dest: set_update_subset_insert[THEN subsetD])

lemma slot_ok_empty: "slot_ok []"
  by (simp add: slot_ok_def)

lemma otp_ok_remove_slot: "otp_ok buf \<Longrightarrow> idx < 5 \<Longrightarrow> otp_ok (remove_slot idx buf)"
  unfolding otp_ok_def list_all_iff remove_slot_def
  by (auto simp: slot_ok_empty dest: in_set_takeD in_set_dropD)

lemma otp_ok_handleChange: "otp_ok buf \<Longrightarrow> otp_ok (fst (handleChange val idx buf))"
  by (simp add: handleChange_def otp_ok_update slot_ok_test)

lemma otp_ok_handleKeyDown:
  assumes "otp_ok buf" "idx < 5"
  shows "otp_ok (fst (handleKeyDown key idx buf))"
proof -
  have len: "length buf = 5" using assms(1) by (simp add: otp_ok_def)
  consider (bs) "key = ''Backspace''" | (del) "key = ''Delete''"
    | (other) "key \<noteq> ''Backspace''" "key \<noteq> ''Delete''" by blast
  then show ?thesis
  proof cases
    case bs
    show ?thesis
    proof (cases "buf ! idx = []")
      case False
      with bs assms show ?thesis by (simp add: backspace_filled otp_ok_update slot_ok_empty)
    next
      case True
      show ?thesis
      proof (cases "\<exists>j. idx < j \<and> j < length buf \<and> buf ! j \<noteq> []")
        case True
        with bs \<open>buf ! idx = []\<close> assms len show ?thesis
          by (simp add: backspace_shift otp_ok_remove_slot)
      next
        case False
        then have "\<forall>j. idx < j \<and> j < length buf \<longrightarrow> buf ! j = []" by blast
        with bs \<open>buf ! idx = []\<close> assms show ?thesis
          by (simp add: backspace_nothing_right otp_ok_update slot_ok_empty)
      qed
    qed
  next
    case del
    with assms len show ?thesis
      by (cases "buf ! idx = []") (simp_all add: delete_empty delete_filled otp_ok_remove_slot)
  next
    case other
    with assms show ?thesis by (simp add: handleKeyDown_def)
  qed
qed

lemma otp_ok_handlePaste:
  assumes "otp_ok buf"
  shows "otp_ok (fst (handlePaste pastedData buf))"
proof (cases "0 < length (paste_digits pastedData)")
  case False
  with assms show ?thesis by (simp add: handlePaste_def)
next
  case True
  have len: "length buf = 5" using assms by (simp add: otp_ok_def)
  have "length (paste_digits pastedData) \<le> 5" by (rule paste_digits_length)
  then show ?thesis
    unfolding handlePaste_filled[OF len True] otp_ok_def list_all_iff
    by (auto simp: slot_ok_def dest: paste_digits_isDigit)
qed

lemma otp_ok_cleared: "otp_ok [[], [], [], [], []]"
  by (simp add: otp_ok_def slot_ok_def)

lemma otp_handleResendOTP_await:
  "otp (fst (handleResendOTP_await r s)) =
     (if carries_reference r then [[], [], [], [], []] else otp s)"
  by (cases r rule: carries_reference.cases)
     (simp_all add: handleResendOTP_await_def resend_catch_def)

lemma otp_edit: "otp (fst (edit h s)) = fst (h (otp s))"
  by (simp add: edit_def split: prod.splits)

lemma otp_timerEffect: "otp (fst (timerEffect h s)) = otp s"
  by (simp add: timerEffect_def)

lemma otp_handleVerify_sync: "otp (fst (handleVerify_sync referenceId s)) = otp s"
  by (simp add: handleVerify_sync_def Let_def)

lemma otp_handleVerify_await: "otp (fst (handleVerify_await r s)) = otp s"
  by (simp add: handleVerify_await_def split: verify_result.splits option.splits)

lemma otp_handleResendOTP_sync: "otp (fst (handleResendOTP_sync phoneNumber s)) = otp s"
  by (simp add: handleResendOTP_sync_def Let_def)

lemma otp_ok_step:
  assumes "otp_ok (otp s)" "step p e s = Some (s', effs)"
  shows "otp_ok (otp s')"
proof (cases e)
  case (Change val idx)
  with assms have "s' = fst (edit (handleChange val idx) s)" by (auto split: if_splits)
  with assms(1) show ?thesis by (simp add: otp_edit otp_ok_handleChange)
next
  case (KeyDown key idx)
  with assms have "s' = fst (edit (handleKeyDown key idx) s)" "idx < 5" by (auto split: if_splits)
  with assms(1) show ?thesis by (simp add: otp_edit otp_ok_handleKeyDown)
next
  case (Paste pastedData)
  with assms have "s' = fst (edit (handlePaste pastedData) s)" by auto
  with assms(1) show ?thesis by (simp add: otp_edit otp_ok_handlePaste)
next
  case Tick
  with assms have "s' = fst (timerEffect (prop_onOTPExpired p) (s\<lparr>timer := timer s - 1\<rparr>))"
    by (auto simp: tick_def split: if_splits)
  with assms(1) show ?thesis by (simp add: otp_timerEffect)
next
  case EffectRerun
  with assms have "s' = fst (timerEffect (prop_onOTPExpired p) s)" by auto
  with assms(1) show ?thesis by (simp add: otp_timerEffect)
next
  case PressVerify
  with assms have "s' = fst (handleVerify_sync (prop_referenceId p) s)" by auto
  with assms(1) show ?thesis by (simp add: otp_handleVerify_sync)
next
  case (VerifySettled r)
  with assms have "s' = fst (handleVerify_await r s)" by (auto split: if_splits)
  with assms(1) show ?thesis by (simp add: otp_handleVerify_await)
next
  case TimeoutFired
  with assms show ?thesis by (auto simp: verifiedTimeout_def)
next
  case PressResend
  with assms have "s' = fst (handleResendOTP_sync (prop_phoneNumber p) s)" by auto
  with assms(1) show ?thesis by (simp add: otp_handleResendOTP_sync)
next
  case (ResendSettled r)
  with assms have "s' = fst (handleResendOTP_await r s)" by (auto split: if_splits)
  with assms(1) show ?thesis by (simp add: otp_handleResendOTP_await otp_ok_cleared)
next
  case CloseModal
  with assms show ?thesis by auto
qed

lemma reachable_otp_ok: "reachable s \<Longrightarrow> otp_ok (otp s)"
proof (induction rule: reachable.induct)
  case reachable_initial
  show ?case by (simp add: initial_def otp_ok_cleared)
next
  case (reachable_step s p e s' effs)
  then show ?case by (blast intro: otp_ok_step)
qed

text \<open>
  Claim C2, amended. In every reachable state the buffer has five slots, each empty or one
  decimal digit; typing, Backspace, Delete and every other key, paste and the reset of a
  successful resend preserve this. Typing a value that is neither empty nor a single decimal
  digit leaves the buffer unchanged; typing the empty value clears the slot.
\<close>
theorem buffer_invariant:
  "(reachable s \<longrightarrow> otp_ok (otp s))
 \<and> (otp_ok buf \<and> idx < 5 \<longrightarrow>
      otp_ok (fst (handleChange val idx buf)) \<and> otp_ok (fst (handleKeyDown key idx buf))
    \<and> otp_ok (fst (handlePaste pastedData buf)))
 \<and> (carries_reference r \<longrightarrow> otp_ok (otp (fst (handleResendOTP_await r s))))
 \<and> (val \<noteq> [] \<and> \<not> (\<exists>c. val = [c] \<and> isDigit c) \<longrightarrow> handleChange val idx buf = (buf, None))
 \<and> fst (handleChange [] idx buf) = buf[idx := []]"
proof -
  have "val \<noteq> [] \<and> \<not> (\<exists>c. val = [c] \<and> isDigit c) \<longrightarrow> handleChange val idx buf = (buf, None)"
    by (simp add: handleChange_def test_opt_digit_iff)
  moreover have "fst (handleChange [] idx buf) = buf[idx := []]"
    by (simp add: handleChange_def)
  moreover have "carries_reference r \<longrightarrow> otp_ok (otp (fst (handleResendOTP_await r s)))"
    by (simp add: otp_handleResendOTP_await otp_ok_cleared)
  ultimately show ?thesis
    by (simp add: reachable_otp_ok otp_ok_handleChange otp_ok_handleKeyDown otp_ok_handlePaste)
qed

text \<open>C2 on the initial state and on a concrete buffer.\<close>
theorem buffer_invariant_witness:
  "otp_ok (otp initial)
 \<and> otp_ok [''1'', [], [], [], []]
 \<and> otp_ok (fst (handleChange ''1a'' 1 [''1'', [], [], [], []]))
 \<and> otp_ok (fst (handleKeyDown ''Backspace'' 1 [''1'', [], [], [], []]))
 \<and> otp_ok (fst (handlePaste ''4711'' [''1'', [], [], [], []]))
 \<and> otp_ok (otp (fst (handleResendOTP_await (SendResolved (Some ''ref-2'')) initial)))
 \<and> handleChange ''1a'' 1 [''1'', [], [], [], []] = ([''1'', [], [], [], []], None)"
proof -
  have a: "otp_ok [''1'', [], [], [], []]" by (simp add: otp_ok_def slot_ok_def isDigit_def)
  have b: "''1a'' \<noteq> [] \<and> \<not> (\<exists>c. ''1a'' = [c] \<and> isDigit c)" by simp
  have c: "carries_reference (SendResolved (Some ''ref-2''))" by simp
  show ?thesis
    using buffer_invariant[of initial "[''1'', [], [], [], []]" 1 "''1a''" "''Backspace''" "''4711''"
        "SendResolved (Some ''ref-2'')"] reachable_initial a b c
    by simp
qed

text \<open>
  Claim C2 as stated fails in its last part: the empty string is not a single decimal digit,
  and \<open>handleChange\<close> with it clears the slot.
\<close>
theorem change_empty_value_counterexample:
  "length ([]::string) \<noteq> 1
 \<and> fst (handleChange [] 0 [''1'', ''2'', ''3'', ''4'', ''5'']) = [[], ''2'', ''3'', ''4'', ''5'']
 \<and> fst (handleChange [] 0 [''1'', ''2'', ''3'', ''4'', ''5'']) \<noteq> [''1'', ''2'', ''3'', ''4'', ''5'']"
  by (simp add: handleChange_def)

section \<open>Properties of verification\<close>

subsection \<open>Local rejection\<close>

lemma slot_ok_length: "slot_ok d \<Longrightarrow> length d = (if d = [] then 0 else 1)"
  by (auto simp: slot_ok_def)

lemma complete_iff_no_empty_slot:
  assumes "otp_ok buf"
  shows "length (concat buf) = 5 \<longleftrightarrow> [] \<notin> set buf"
proof -
  from assms obtain a b c d e where buf: "buf = [a, b, c, d, e]"
    by (auto simp: otp_ok_def length_Suc_conv numeral_eq_Suc)
  with assms have "slot_ok a" "slot_ok b" "slot_ok c" "slot_ok d" "slot_ok e"
    by (simp_all add: otp_ok_def)
  then show ?thesis
    unfolding buf by (auto dest!: slot_ok_length split: if_splits)
qed

lemma await_makes_no_verify_call: "\<not> list_ex is_verify_call (snd (handleVerify_await r t))"
  by (simp add: handleVerify_await_def split: verify_result.splits option.splits)

lemma handleVerify_in_flight: "isVerifying s \<Longrightarrow> handleVerify verifyOTP referenceId s = (s, [])"
  by (simp add: handleVerify_def handleVerify_sync_def)

lemma handleVerify_incomplete:
  "\<not> isVerifying s \<Longrightarrow> length (concat (otp s)) \<noteq> 5 \<Longrightarrow>
   handleVerify verifyOTP referenceId s =
     (s\<lparr>isError := True, modalMessage := ''Please enter all 5 digits.'', isModalOpen := True\<rparr>, [])"
  by (simp add: handleVerify_def handleVerify_sync_def)

lemma handleVerify_expired:
  "\<not> isVerifying s \<Longrightarrow> length (concat (otp s)) = 5 \<Longrightarrow> isOtpExpired s \<or> referenceId = [] \<Longrightarrow>
   handleVerify verifyOTP referenceId s =
     (s\<lparr>isError := True, modalMessage := ''OTP has expired. Please request a new one.'',
        isModalOpen := True\<rparr>, [])"
  by (simp add: handleVerify_def handleVerify_sync_def)

lemma handleVerify_call:
  "\<not> isVerifying s \<Longrightarrow> length (concat (otp s)) = 5 \<Longrightarrow> \<not> isOtpExpired s \<Longrightarrow> referenceId \<noteq> [] \<Longrightarrow>
   handleVerify verifyOTP referenceId s =
     (fst (handleVerify_await (verifyOTP (concat (otp s)) referenceId) (s\<lparr>isVerifying := True\<rparr>)),
      VerifyOTP (concat (otp s)) referenceId
        # snd (handleVerify_await (verifyOTP (concat (otp s)) referenceId) (s\<lparr>isVerifying := True\<rparr>)))"
  by (simp add: handleVerify_def handleVerify_sync_def split: prod.splits)

text \<open>
  Claim C1, amended. In a state whose buffer satisfies the invariant: while a verification
  is already pending, Verify is ignored, with no network call and no message. Otherwise, if
  a slot is empty Verify makes no network call and reports that all 5 digits are needed; if
  all slots are filled but the session reference is empty or the expired flag is set, it
  makes no network call and reports that the code has expired. \<open>verifyOTP\<close> is called exactly
  when no verification is pending, all 5 slots are filled, the session reference is not
  empty and the expired flag is not set, and then with the joined code and that reference.
\<close>
theorem verify_local_rejection:
  assumes "otp_ok (otp s)"
  shows "(isVerifying s \<longrightarrow> handleVerify verifyOTP referenceId s = (s, []))
       \<and> (\<not> isVerifying s \<and> [] \<in> set (otp s) \<longrightarrow>
            handleVerify verifyOTP referenceId s =
              (s\<lparr>isError := True, modalMessage := ''Please enter all 5 digits.'',
                 isModalOpen := True\<rparr>, []))
       \<and> (\<not> isVerifying s \<and> [] \<notin> set (otp s) \<and> (referenceId = [] \<or> isOtpExpired s) \<longrightarrow>
            handleVerify verifyOTP referenceId s =
              (s\<lparr>isError := True, modalMessage := ''OTP has expired. Please request a new one.'',
                 isModalOpen := True\<rparr>, []))
       \<and> (\<not> isVerifying s \<and> [] \<notin> set (otp s) \<and> referenceId \<noteq> [] \<and> \<not> isOtpExpired s \<longrightarrow>
            hd (snd (handleVerify verifyOTP referenceId s)) = VerifyOTP (concat (otp s)) referenceId)
       \<and> (list_ex is_verify_call (snd (handleVerify verifyOTP referenceId s)) \<longleftrightarrow>
            \<not> isVerifying s \<and> [] \<notin> set (otp s) \<and> referenceId \<noteq> [] \<and> \<not> isOtpExpired s)"
proof -
  note c = complete_iff_no_empty_slot[OF assms]
  have r1: "isVerifying s \<longrightarrow> handleVerify verifyOTP referenceId s = (s, [])"
    by (simp add: handleVerify_in_flight)
  have r2: "\<not> isVerifying s \<and> [] \<in> set (otp s) \<longrightarrow>
            handleVerify verifyOTP referenceId s =
              (s\<lparr>isError := True, modalMessage := ''Please enter all 5 digits.'',
                 isModalOpen := True\<rparr>, [])"
    using c by (simp add: handleVerify_incomplete)
  have r3: "\<not> isVerifying s \<and> [] \<notin> set (otp s) \<and> (referenceId = [] \<or> isOtpExpired s) \<longrightarrow>
            handleVerify verifyOTP referenceId s =
              (s\<lparr>isError := True, modalMessage := ''OTP has expired. Please request a new one.'',
                 isModalOpen := True\<rparr>, [])"
    using c handleVerify_expired[of s referenceId verifyOTP] by blast
  have r4: "\<not> isVerifying s \<and> [] \<notin> set (otp s) \<and> referenceId \<noteq> [] \<and> \<not> isOtpExpired s \<longrightarrow>
            hd (snd (handleVerify verifyOTP referenceId s)) = VerifyOTP (concat (otp s)) referenceId"
    using c by (simp add: handleVerify_call)
  have r5: "list_ex is_verify_call (snd (handleVerify verifyOTP referenceId s)) \<longleftrightarrow>
            \<not> isVerifying s \<and> [] \<notin> set (otp s) \<and> referenceId \<noteq> [] \<and> \<not> isOtpExpired s"
  proof (cases "\<not> isVerifying s \<and> [] \<notin> set (otp s) \<and> referenceId \<noteq> [] \<and> \<not> isOtpExpired s")
    case True
    then show ?thesis using c by (simp add: handleVerify_call)
  next
    case False
    then consider "isVerifying s" | "\<not> isVerifying s" "[] \<in> set (otp s)"
      | "\<not> isVerifying s" "[] \<notin> set (otp s)" "referenceId = [] \<or> isOtpExpired s" by blast
    then show ?thesis
    proof cases
      case 1 then show ?thesis using r1 by simp
    next
      case 2 then show ?thesis using r2 by simp
    next
      case 3 then show ?thesis using r3 by auto
    qed
  qed
  from r1 r2 r3 r4 r5 show ?thesis by blast
qed

text \<open>C1 on four concrete states: incomplete, no reference, accepted, pending.\<close>
theorem verify_local_rejection_witness:
  "handleVerify (\<lambda>code ref. Resolved ''1000'') ''ref-1''
     (initial\<lparr>otp := [''1'', ''2'', ''3'', ''4'', []]\<rparr>) =
     (initial\<lparr>otp := [''1'', ''2'', ''3'', ''4'', []], isError := True,
        modalMessage := ''Please enter all 5 digits.'', isModalOpen := True\<rparr>, [])
 \<and> handleVerify (\<lambda>code ref. Resolved ''1000'') []
     (initial\<lparr>otp := [''1'', ''2'', ''3'', ''4'', ''5'']\<rparr>) =
     (initial\<lparr>otp := [''1'', ''2'', ''3'', ''4'', ''5''], isError := True,
        modalMessage := ''OTP has expired. Please request a new one.'', isModalOpen := True\<rparr>, [])
 \<and> hd (snd (handleVerify (\<lambda>code ref. Resolved ''1000'') ''ref-1''
     (initial\<lparr>otp := [''1'', ''2'', ''3'', ''4'', ''5'']\<rparr>))) = VerifyOTP ''12345'' ''ref-1''
 \<and> handleVerify (\<lambda>code ref. Resolved ''1000'') ''ref-1''
     (initial\<lparr>otp := [''1'', ''2'', ''3'', ''4'', ''5''], isVerifying := True\<rparr>) =
     (initial\<lparr>otp := [''1'', ''2'', ''3'', ''4'', ''5''], isVerifying := True\<rparr>, [])"
proof -
  have a: "otp_ok [''1'', ''2'', ''3'', ''4'', []]" "otp_ok [''1'', ''2'', ''3'', ''4'', ''5'']"
    by (simp_all add: otp_ok_def slot_ok_def isDigit_def)
  show ?thesis
    using a
      verify_local_rejection[of "initial\<lparr>otp := [''1'', ''2'', ''3'', ''4'', []]\<rparr>"
        "\<lambda>code ref. Resolved ''1000''" "''ref-1''"]
      verify_local_rejection[of "initial\<lparr>otp := [''1'', ''2'', ''3'', ''4'', ''5'']\<rparr>"
        "\<lambda>code ref. Resolved ''1000''" "[]"]
      verify_local_rejection[of "initial\<lparr>otp := [''1'', ''2'', ''3'', ''4'', ''5'']\<rparr>"
        "\<lambda>code ref. Resolved ''1000''" "''ref-1''"]
      verify_local_rejection[of "initial\<lparr>otp := [''1'', ''2'', ''3'', ''4'', ''5''], isVerifying := True\<rparr>"
        "\<lambda>code ref. Resolved ''1000''" "''ref-1''"]
    by (simp add: initial_def)
qed

lemma reachable_while_verifying:
  "reachable (initial\<lparr>otp := [''1'', ''2'', ''3'', ''4'', []], isVerifying := True\<rparr>)"
proof -
  let ?p = "\<lparr>prop_phoneNumber = ''+94771234567'', prop_referenceId = ''ref-1'',
             prop_onOTPExpired = False\<rparr>"
  have d: "paste_digits ''12345'' = ''12345''" by (simp add: paste_digits_def isDigit_def)
  have "handlePaste ''12345'' [[], [], [], [], []] = ([''1'', ''2'', ''3'', ''4'', ''5''], Some 4)"
    using handlePaste_filled[of "[[], [], [], [], []]" "''12345''"] by (simp add: d)
  then have "step ?p (Paste ''12345'') initial
               = Some (initial\<lparr>otp := [''1'', ''2'', ''3'', ''4'', ''5'']\<rparr>, [Focus 4])"
    by (simp add: edit_def initial_def)
  with reachable_initial have 1: "reachable (initial\<lparr>otp := [''1'', ''2'', ''3'', ''4'', ''5'']\<rparr>)"
    by (rule reachable_step)
  have "step ?p PressVerify (initial\<lparr>otp := [''1'', ''2'', ''3'', ''4'', ''5'']\<rparr>)
          = Some (initial\<lparr>otp := [''1'', ''2'', ''3'', ''4'', ''5''], isVerifying := True\<rparr>,
                  [VerifyOTP ''12345'' ''ref-1''])"
    by (simp add: handleVerify_sync_def initial_def)
  with 1 have 2: "reachable (initial\<lparr>otp := [''1'', ''2'', ''3'', ''4'', ''5''], isVerifying := True\<rparr>)"
    by (rule reachable_step)
  have "step ?p (KeyDown ''Backspace'' 4)
            (initial\<lparr>otp := [''1'', ''2'', ''3'', ''4'', ''5''], isVerifying := True\<rparr>)
          = Some (initial\<lparr>otp := [''1'', ''2'', ''3'', ''4'', []], isVerifying := True\<rparr>, [])"
    by (simp add: edit_def backspace_filled initial_def)
  with 2 show ?thesis by (rule reachable_step)
qed

text \<open>
  Claim C1 as stated fails while a verification is pending: in the reachable state with
  the buffer \<open>['1', '2', '3', '4', '']\<close> and \<open>isVerifying\<close> set, Verify makes no network
  call but reports nothing either: the state is unchanged and the modal stays closed.
\<close>
theorem verify_in_flight_counterexample:
  "reachable (initial\<lparr>otp := [''1'', ''2'', ''3'', ''4'', []], isVerifying := True\<rparr>)
 \<and> [] \<in> set (otp (initial\<lparr>otp := [''1'', ''2'', ''3'', ''4'', []], isVerifying := True\<rparr>))
 \<and> handleVerify_sync ''ref-1''
      (initial\<lparr>otp := [''1'', ''2'', ''3'', ''4'', []], isVerifying := True\<rparr>)
    = (initial\<lparr>otp := [''1'', ''2'', ''3'', ''4'', []], isVerifying := True\<rparr>, [])
 \<and> \<not> isModalOpen (fst (handleVerify_sync ''ref-1''
      (initial\<lparr>otp := [''1'', ''2'', ''3'', ''4'', []], isVerifying := True\<rparr>)))
 \<and> modalMessage (fst (handleVerify_sync ''ref-1''
      (initial\<lparr>otp := [''1'', ''2'', ''3'', ''4'', []], isVerifying := True\<rparr>))) = []"
  using reachable_while_verifying
  by (simp add: handleVerify_sync_def) (simp add: initial_def)

text \<open>
  Claim C3. When \<open>verifyOTP\<close> answers with a status code, exactly one of four outcomes
  follows: \<open>1000\<close> marks the widget verified, shows the success message and sets a timeout
  of 2000 ms whose callback closes the modal and calls \<open>onVerificationSuccess\<close>; \<open>1001\<close> shows
  the invalid-code error; \<open>1002\<close> and \<open>1003\<close> set the expired flag and show the expired error;
  every other code shows the generic error and leaves the expired flag as it was.
\<close>
theorem verify_status_outcomes:
  assumes "handleVerify_await (Resolved statusCode) s = (s', effs)"
  shows "\<not> isVerifying s'
       \<and> (statusCode = ''1000'' \<longrightarrow>
            isVerified s' \<and> \<not> isError s' \<and> isModalOpen s'
          \<and> modalMessage s' = ''OTP Verified Successfully!'' \<and> effs = [SetTimeout 2000]
          \<and> isOtpExpired s' = isOtpExpired s
          \<and> verifiedTimeout s' = (s'\<lparr>isModalOpen := False\<rparr>, [OnVerificationSuccess]))
       \<and> (statusCode = ''1001'' \<longrightarrow>
            isError s' \<and> isModalOpen s' \<and> modalMessage s' = ''Invalid OTP. Please try again.''
          \<and> effs = [] \<and> isOtpExpired s' = isOtpExpired s \<and> isVerified s' = isVerified s)
       \<and> (statusCode = ''1002'' \<or> statusCode = ''1003'' \<longrightarrow>
            isOtpExpired s' \<and> isError s' \<and> isModalOpen s'
          \<and> modalMessage s' = ''OTP has expired. Please request a new one.''
          \<and> effs = [] \<and> isVerified s' = isVerified s)
       \<and> (statusCode \<notin> {''1000'', ''1001'', ''1002'', ''1003''} \<longrightarrow>
            isError s' \<and> isModalOpen s'
          \<and> modalMessage s' = ''Something went wrong. Please try again.''
          \<and> effs = [] \<and> isOtpExpired s' = isOtpExpired s \<and> isVerified s' = isVerified s)"
proof -
  consider "statusCode = ''1000''" | "statusCode = ''1001''"
    | "statusCode = ''1002'' \<or> statusCode = ''1003''"
    | "statusCode \<notin> {''1000'', ''1001'', ''1002'', ''1003''}" by blast
  then show ?thesis
  proof cases
    case 1
    with assms show ?thesis by (auto simp: handleVerify_await_def verifiedTimeout_def)
  next
    case 2
    with assms show ?thesis by (auto simp: handleVerify_await_def)
  next
    case 3
    with assms show ?thesis by (auto simp: handleVerify_await_def)
  next
    case 4
    with assms show ?thesis by (auto simp: handleVerify_await_def)
  qed
qed

text \<open>C3 for the four listed codes and for another one.\<close>
theorem verify_status_outcomes_witness:
  "isVerified (fst (handleVerify_await (Resolved ''1000'') (initial\<lparr>isVerifying := True\<rparr>)))
 \<and> snd (handleVerify_await (Resolved ''1000'') (initial\<lparr>isVerifying := True\<rparr>)) = [SetTimeout 2000]
 \<and> modalMessage (fst (handleVerify_await (Resolved ''1001'') (initial\<lparr>isVerifying := True\<rparr>)))
      = ''Invalid OTP. Please try again.''
 \<and> isOtpExpired (fst (handleVerify_await (Resolved ''1002'') (initial\<lparr>isVerifying := True\<rparr>)))
 \<and> isOtpExpired (fst (handleVerify_await (Resolved ''1003'') (initial\<lparr>isVerifying := True\<rparr>)))
 \<and> \<not> isOtpExpired (fst (handleVerify_await (Resolved ''500'') (initial\<lparr>isVerifying := True\<rparr>)))
 \<and> modalMessage (fst (handleVerify_await (Resolved ''500'') (initial\<lparr>isVerifying := True\<rparr>)))
      = ''Something went wrong. Please try again.''"
  using
    verify_status_outcomes[OF surjective_pairing, of "''1000''" "initial\<lparr>isVerifying := True\<rparr>"]
    verify_status_outcomes[OF surjective_pairing, of "''1001''" "initial\<lparr>isVerifying := True\<rparr>"]
    verify_status_outcomes[OF surjective_pairing, of "''1002''" "initial\<lparr>isVerifying := True\<rparr>"]
    verify_status_outcomes[OF surjective_pairing, of "''1003''" "initial\<lparr>isVerifying := True\<rparr>"]
    verify_status_outcomes[OF surjective_pairing, of "''500''" "initial\<lparr>isVerifying := True\<rparr>"]
  by (simp add: initial_def)

subsection \<open>Failure of the call\<close>

lemma str_includes_iff: "str_includes s t \<longleftrightarrow> (\<exists>pre post. s = pre @ t @ post)"
proof (induction s)
  case Nil
  show ?case by auto
next
  case (Cons c cs)
  have "take (length t) (c # cs) = t \<longleftrightarrow> (\<exists>post. c # cs = t @ post)"
    by (metis append_eq_conv_conj append_take_drop_id)
  moreover have "(\<exists>pre post. c # cs = pre @ t @ post) \<longleftrightarrow>
      (\<exists>post. c # cs = t @ post) \<or> (\<exists>pre post. cs = pre @ t @ post)"
  proof
    assume "\<exists>pre post. c # cs = pre @ t @ post"
    then obtain pre post where e: "c # cs = pre @ t @ post" by blast
    show "(\<exists>post. c # cs = t @ post) \<or> (\<exists>pre post. cs = pre @ t @ post)"
    proof (cases pre)
      case Nil with e show ?thesis by auto
    next
      case (Cons a pre') with e show ?thesis by auto
    qed
  next
    assume "(\<exists>post. c # cs = t @ post) \<or> (\<exists>pre post. cs = pre @ t @ post)"
    then show "\<exists>pre post. c # cs = pre @ t @ post"
    proof
      assume "\<exists>post. c # cs = t @ post"
      then show ?thesis by (metis append_Nil)
    next
      assume "\<exists>pre post. cs = pre @ t @ post"
      then show ?thesis by (metis append_Cons)
    qed
  qed
  ultimately show ?case using Cons.IH by simp
qed

text \<open>
  Claim C8, amended. When \<open>verifyOTP\<close> throws, the widget sets the expired flag and shows
  the expired message if and only if the error has a message whose lower-case form contains
  \<open>expired\<close>; otherwise the expired flag is left as it was and the generic failure message
  is shown.
\<close>
theorem verify_error_classification:
  assumes "handleVerify_await (Rejected message) s = (s', effs)"
  shows "isError s' \<and> isModalOpen s' \<and> \<not> isVerifying s' \<and> effs = []
       \<and> ((\<exists>m. message = Some m \<and> str_includes (toLowerCase m) ''expired'') \<longrightarrow>
            isOtpExpired s' \<and> modalMessage s' = ''OTP has expired. Please request a new one.'')
       \<and> (\<not> (\<exists>m. message = Some m \<and> str_includes (toLowerCase m) ''expired'') \<longrightarrow>
            isOtpExpired s' = isOtpExpired s
          \<and> modalMessage s' = ''Failed to verify OTP. Try again later.'')"
proof (cases message)
  case None
  with assms show ?thesis by (auto simp: handleVerify_await_def)
next
  case (Some m)
  show ?thesis
  proof (cases "str_includes (toLowerCase m) ''expired''")
    case True
    then have "m \<noteq> []" by (auto simp: toLowerCase_def)
    with True Some assms show ?thesis by (auto simp: handleVerify_await_def)
  next
    case False
    with Some assms show ?thesis by (auto simp: handleVerify_await_def)
  qed
qed

text \<open>C8 for an expired message, another message and an error without message.\<close>
theorem verify_error_classification_witness:
  "isOtpExpired (fst (handleVerify_await (Rejected (Some ''Your OTP Expired'')) initial))
 \<and> modalMessage (fst (handleVerify_await (Rejected (Some ''Your OTP Expired'')) initial))
      = ''OTP has expired. Please request a new one.''
 \<and> \<not> isOtpExpired (fst (handleVerify_await (Rejected (Some ''Network Error'')) initial))
 \<and> modalMessage (fst (handleVerify_await (Rejected (Some ''Network Error'')) initial))
      = ''Failed to verify OTP. Try again later.''
 \<and> \<not> isOtpExpired (fst (handleVerify_await (Rejected None) initial))"
proof -
  have a: "str_includes (toLowerCase ''Your OTP Expired'') ''expired''"
    by code_simp
  have b: "\<not> str_includes (toLowerCase ''Network Error'') ''expired''"
    by code_simp
  have c: "\<not> isOtpExpired initial" by (simp add: initial_def)
  show ?thesis
    using a b c
      verify_error_classification[OF surjective_pairing, of "Some ''Your OTP Expired''" initial]
      verify_error_classification[OF surjective_pairing, of "Some ''Network Error''" initial]
      verify_error_classification[OF surjective_pairing, of None initial]
    by simp
qed

text \<open>
  Claim C8 as stated fails: the text \<open>Session EXPIRED\<close> does not contain the substring
  \<open>expired\<close>, and the failure is treated as an expired session all the same.
\<close>
theorem verify_error_uppercase_counterexample:
  "\<not> str_includes ''Session EXPIRED'' ''expired''
 \<and> \<not> isOtpExpired initial
 \<and> isOtpExpired (fst (handleVerify_await (Rejected (Some ''Session EXPIRED'')) initial))
 \<and> modalMessage (fst (handleVerify_await (Rejected (Some ''Session EXPIRED'')) initial))
      = ''OTP has expired. Please request a new one.''"
  by code_simp

section \<open>Properties of resend\<close>

text \<open>
  Claim C7. When the resend response carries a new session reference, the widget sets the
  countdown to 60, disables resend again, clears the expired flag, empties the 5 slots and
  passes the new reference to \<open>onResendOTP\<close>; so does the whole handler, after calling
  \<open>sendOTPInSignup\<close>, when resend is unlocked and no resend is pending.
\<close>
theorem resend_success_resets:
  assumes "r = SendResolved (Some newReferenceId)" and "newReferenceId \<noteq> []"
  shows "handleResendOTP_await r s =
           (s\<lparr>timer := 60, disabledResend := True, isOtpExpired := False,
              otp := [[], [], [], [], []], isVerified := False, isError := False,
              modalMessage := ''New OTP has been sent to your mobile number.'',
              isModalOpen := True, isResending := False\<rparr>,
            [OnResendOTP newReferenceId, Focus 0])
       \<and> (\<not> disabledResend s \<and> \<not> isResending s
            \<and> sendOTPInSignup (drop (length phoneNumber - 10) phoneNumber)
                 (take (length phoneNumber - 10) phoneNumber) = r \<longrightarrow>
          handleResendOTP sendOTPInSignup phoneNumber s =
            (s\<lparr>timer := 60, disabledResend := True, isOtpExpired := False,
               otp := [[], [], [], [], []], isVerified := False, isError := False,
               modalMessage := ''New OTP has been sent to your mobile number.'',
               isModalOpen := True, isResending := False\<rparr>,
             [SendOTPInSignup (drop (length phoneNumber - 10) phoneNumber)
                (take (length phoneNumber - 10) phoneNumber),
              OnResendOTP newReferenceId, Focus 0]))"
proof -
  have a: "handleResendOTP_await r s =
           (s\<lparr>timer := 60, disabledResend := True, isOtpExpired := False,
              otp := [[], [], [], [], []], isVerified := False, isError := False,
              modalMessage := ''New OTP has been sent to your mobile number.'',
              isModalOpen := True, isResending := False\<rparr>,
            [OnResendOTP newReferenceId, Focus 0])" for s
    using assms by (simp add: handleResendOTP_await_def)
  show ?thesis
    by (auto simp: a handleResendOTP_def handleResendOTP_sync_def Let_def)
qed

text \<open>C7 from an expired state with a partly filled buffer.\<close>
theorem resend_success_resets_witness:
  "handleResendOTP_await (SendResolved (Some ''ref-2''))
     (initial\<lparr>otp := [''1'', ''2'', [], [], []], timer := 0, disabledResend := False,
        isOtpExpired := True, isResending := True\<rparr>)
   = (initial\<lparr>isModalOpen := True,
        modalMessage := ''New OTP has been sent to your mobile number.''\<rparr>,
      [OnResendOTP ''ref-2'', Focus 0])
 \<and> handleResendOTP (\<lambda>phone countryCode. SendResolved (Some ''ref-2'')) ''+94771234567''
     (initial\<lparr>otp := [''1'', ''2'', [], [], []], timer := 0, disabledResend := False,
        isOtpExpired := True\<rparr>)
   = (initial\<lparr>isModalOpen := True,
        modalMessage := ''New OTP has been sent to your mobile number.''\<rparr>,
      [SendOTPInSignup ''4771234567'' ''+9'', OnResendOTP ''ref-2'', Focus 0])"
proof -
  let ?s = "initial\<lparr>otp := [''1'', ''2'', [], [], []], timer := 0, disabledResend := False,
        isOtpExpired := True\<rparr>"
  have h: "SendResolved (Some ''ref-2'') = SendResolved (Some ''ref-2'')" "''ref-2'' \<noteq> []"
    by simp_all
  show ?thesis
    using resend_success_resets[OF h, of "?s\<lparr>isResending := True\<rparr>"
        "\<lambda>phone countryCode. SendResolved (Some ''ref-2'')" "''+94771234567''"]
      resend_success_resets[OF h, of ?s
        "\<lambda>phone countryCode. SendResolved (Some ''ref-2'')" "''+94771234567''"]
    by (simp add: initial_def)
qed

section \<open>The countdown and the locked state\<close>

lemma edit_fields:
  "timer (fst (edit h s)) = timer s" "isOtpExpired (fst (edit h s)) = isOtpExpired s"
  "disabledResend (fst (edit h s)) = disabledResend s"
  by (simp_all add: edit_def split: prod.splits)

lemma step_countdown:
  assumes "step p e s = Some (s', effs)"
  shows "(e = Tick \<and> 0 < timer s \<and> timer s' = timer s - 1
           \<and> (if timer s = 1 then isOtpExpired s' \<and> \<not> disabledResend s'
               else isOtpExpired s' = isOtpExpired s \<and> disabledResend s' = disabledResend s))
       \<or> (\<exists>r. e = ResendSettled r \<and> carries_reference r \<and> timer s' = 60
             \<and> \<not> isOtpExpired s' \<and> disabledResend s')
       \<or> (e \<noteq> Tick \<and> timer s' = timer s \<and> (isOtpExpired s \<longrightarrow> isOtpExpired s')
             \<and> (disabledResend s' \<longrightarrow> disabledResend s))"
proof (cases e)
  case (Change val idx)
  with assms have "s' = fst (edit (handleChange val idx) s)" by (auto split: if_splits)
  with Change show ?thesis by (simp add: edit_fields)
next
  case (KeyDown key idx)
  with assms have "s' = fst (edit (handleKeyDown key idx) s)" by (auto split: if_splits)
  with KeyDown show ?thesis by (simp add: edit_fields)
next
  case (Paste pastedData)
  with assms have "s' = fst (edit (handlePaste pastedData) s)" by auto
  with Paste show ?thesis by (simp add: edit_fields)
next
  case Tick
  with assms show ?thesis by (auto simp: tick_def timerEffect_def split: if_splits)
next
  case EffectRerun
  with assms show ?thesis by (auto simp: timerEffect_def split: if_splits)
next
  case PressVerify
  with assms show ?thesis by (auto simp: handleVerify_sync_def Let_def split: if_splits)
next
  case (VerifySettled r)
  with assms show ?thesis
    by (auto simp: handleVerify_await_def split: if_splits verify_result.splits option.splits)
next
  case TimeoutFired
  with assms show ?thesis by (auto simp: verifiedTimeout_def)
next
  case PressResend
  with assms show ?thesis by (auto simp: handleResendOTP_sync_def Let_def split: if_splits)
next
  case (ResendSettled r)
  with assms have s': "s' = fst (handleResendOTP_await r s)" by (auto split: if_splits)
  show ?thesis
  proof (cases "carries_reference r")
    case True
    then obtain newReferenceId where "r = SendResolved (Some newReferenceId)" "newReferenceId \<noteq> []"
      by (cases r rule: carries_reference.cases) auto
    with s' ResendSettled True show ?thesis by (simp add: handleResendOTP_await_def)
  next
    case False
    with s' ResendSettled show ?thesis
      by (cases r rule: carries_reference.cases)
         (simp_all add: handleResendOTP_await_def resend_catch_def)
  qed
next
  case CloseModal
  with assms show ?thesis by auto
qed

lemma reachable_countdown_inv:
  "reachable s \<Longrightarrow>
   0 \<le> timer s \<and> timer s \<le> 60 \<and> (timer s = 0 \<longrightarrow> isOtpExpired s \<and> \<not> disabledResend s)"
proof (induction rule: reachable.induct)
  case reachable_initial
  show ?case by (simp add: initial_def)
next
  case (reachable_step s p e s' effs)
  from step_countdown[OF reachable_step.hyps(2)] reachable_step.IH show ?case
    by (auto split: if_splits)
qed

lemma handleVerify_expired_no_effect:
  "isOtpExpired s \<Longrightarrow> snd (handleVerify verifyOTP referenceId s) = []"
  by (simp add: handleVerify_def handleVerify_sync_def Let_def)

text \<open>
  Claim C4. The countdown starts at 60 and is never negative; a tick happens only while it is
  positive and takes one unit off; no other event changes it, except a successful resend,
  which sets it to 60. In every reachable state with the countdown at zero the expired flag
  is set, resend is unlocked and Verify does nothing outside the component, in particular
  no network call; and every event from such a state leads to such a state again, except a
  successful resend, which sets the countdown to 60, clears the expired flag and locks
  resend.
\<close>
theorem countdown_lock:
  assumes "reachable s" and "step p e s = Some (s', effs)"
  shows "timer initial = 60 \<and> 0 \<le> timer s
       \<and> (e = Tick \<longrightarrow> 0 < timer s \<and> timer s' = timer s - 1)
       \<and> (e \<noteq> Tick \<longrightarrow>
            timer s' = timer s \<or> (\<exists>r. e = ResendSettled r \<and> carries_reference r \<and> timer s' = 60))
       \<and> (timer s = 0 \<longrightarrow>
            isOtpExpired s \<and> \<not> disabledResend s
          \<and> snd (handleVerify verifyOTP referenceId s) = [])
       \<and> (timer s' = 0 \<longrightarrow> isOtpExpired s' \<and> \<not> disabledResend s')
       \<and> (timer s = 0 \<longrightarrow>
            (timer s' = 0 \<and> isOtpExpired s' \<and> \<not> disabledResend s')
          \<or> (\<exists>r. e = ResendSettled r \<and> carries_reference r \<and> timer s' = 60
                \<and> \<not> isOtpExpired s' \<and> disabledResend s'))"
proof -
  have s: "0 \<le> timer s" "timer s = 0 \<longrightarrow> isOtpExpired s \<and> \<not> disabledResend s"
    using reachable_countdown_inv[OF assms(1)] by simp_all
  have "reachable s'" using assms by (rule reachable_step)
  then have s': "timer s' = 0 \<longrightarrow> isOtpExpired s' \<and> \<not> disabledResend s'"
    using reachable_countdown_inv by blast
  have v: "timer s = 0 \<longrightarrow> snd (handleVerify verifyOTP referenceId s) = []"
    using s(2) by (simp add: handleVerify_expired_no_effect)
  have i: "timer initial = 60" by (simp add: initial_def)
  from step_countdown[OF assms(2)] s s' v i show ?thesis by auto
qed

lemma reachable_counting: "n \<le> 59 \<Longrightarrow> reachable (initial\<lparr>timer := 60 - int n\<rparr>)"
proof (induction n)
  case 0
  have "initial\<lparr>timer := 60 - int 0\<rparr> = initial" by (simp add: initial_def)
  then show ?case using reachable_initial by simp
next
  case (Suc n)
  then have r: "reachable (initial\<lparr>timer := 60 - int n\<rparr>)" by simp
  have "step \<lparr>prop_phoneNumber = [], prop_referenceId = [], prop_onOTPExpired = False\<rparr> Tick
          (initial\<lparr>timer := 60 - int n\<rparr>) = Some (initial\<lparr>timer := 60 - int (Suc n)\<rparr>, [])"
    using Suc.prems by (simp add: tick_def timerEffect_def)
  with r show ?case by (rule reachable_step)
qed

lemma reachable_expired:
  "reachable (initial\<lparr>timer := 0, disabledResend := False, isOtpExpired := True\<rparr>)"
proof -
  have r: "reachable (initial\<lparr>timer := 1\<rparr>)" using reachable_counting[of 59] by simp
  have "step \<lparr>prop_phoneNumber = [], prop_referenceId = [], prop_onOTPExpired = False\<rparr> Tick
          (initial\<lparr>timer := 1\<rparr>)
        = Some (initial\<lparr>timer := 0, disabledResend := False, isOtpExpired := True\<rparr>, [])"
    by (simp add: tick_def timerEffect_def)
  with r show ?thesis by (rule reachable_step)
qed

lemma reachable_resending:
  "reachable (initial\<lparr>timer := 0, disabledResend := False, isOtpExpired := True,
                isResending := True\<rparr>)"
proof -
  have "step \<lparr>prop_phoneNumber = ''+94771234567'', prop_referenceId = [],
              prop_onOTPExpired = False\<rparr> PressResend
          (initial\<lparr>timer := 0, disabledResend := False, isOtpExpired := True\<rparr>)
        = Some (initial\<lparr>timer := 0, disabledResend := False, isOtpExpired := True,
                  isResending := True\<rparr>, [SendOTPInSignup ''4771234567'' ''+9''])"
    by (simp add: handleResendOTP_sync_def initial_def)
  with reachable_expired show ?thesis by (rule reachable_step)
qed

text \<open>C4 on the first tick, on Verify in the expired state and on a successful resend.\<close>
theorem countdown_lock_witness:
  "reachable initial
 \<and> step \<lparr>prop_phoneNumber = [], prop_referenceId = ''ref-1'', prop_onOTPExpired = True\<rparr> Tick initial
     = Some (initial\<lparr>timer := 59\<rparr>, [])
 \<and> timer (initial\<lparr>timer := 59\<rparr>) = timer initial - 1
 \<and> reachable (initial\<lparr>timer := 0, disabledResend := False, isOtpExpired := True\<rparr>)
 \<and> step \<lparr>prop_phoneNumber = [], prop_referenceId = ''ref-1'', prop_onOTPExpired = True\<rparr> PressVerify
       (initial\<lparr>timer := 0, disabledResend := False, isOtpExpired := True\<rparr>)
     = Some (initial\<lparr>timer := 0, disabledResend := False, isOtpExpired := True, isError := True,
               modalMessage := ''Please enter all 5 digits.'', isModalOpen := True\<rparr>, [])
 \<and> snd (handleVerify (\<lambda>code ref. Resolved ''1000'') ''ref-1''
       (initial\<lparr>timer := 0, disabledResend := False, isOtpExpired := True\<rparr>)) = []
 \<and> reachable (initial\<lparr>timer := 0, disabledResend := False, isOtpExpired := True,
                isResending := True\<rparr>)
 \<and> step \<lparr>prop_phoneNumber = [], prop_referenceId = ''ref-1'', prop_onOTPExpired = True\<rparr>
       (ResendSettled (SendResolved (Some ''ref-2'')))
       (initial\<lparr>timer := 0, disabledResend := False, isOtpExpired := True, isResending := True\<rparr>)
     = Some (initial\<lparr>modalMessage := ''New OTP has been sent to your mobile number.'',
               isModalOpen := True\<rparr>, [OnResendOTP ''ref-2'', Focus 0])
 \<and> timer (initial\<lparr>modalMessage := ''New OTP has been sent to your mobile number.'',
               isModalOpen := True\<rparr>) = 60"
proof -
  let ?p = "\<lparr>prop_phoneNumber = [], prop_referenceId = ''ref-1'', prop_onOTPExpired = True\<rparr>"
  let ?s0 = "initial\<lparr>timer := 0, disabledResend := False, isOtpExpired := True\<rparr>"
  have a: "step ?p Tick initial = Some (initial\<lparr>timer := 59\<rparr>, [])"
    by (simp add: tick_def timerEffect_def initial_def)
  have b: "step ?p PressVerify ?s0
     = Some (?s0\<lparr>isError := True, modalMessage := ''Please enter all 5 digits.'',
                isModalOpen := True\<rparr>, [])"
    by (simp add: handleVerify_sync_def initial_def)
  have c: "step ?p (ResendSettled (SendResolved (Some ''ref-2''))) (?s0\<lparr>isResending := True\<rparr>)
     = Some (initial\<lparr>modalMessage := ''New OTP has been sent to your mobile number.'',
               isModalOpen := True\<rparr>, [OnResendOTP ''ref-2'', Focus 0])"
    by (simp add: handleResendOTP_await_def initial_def)
  have d: "reachable (?s0\<lparr>isResending := True\<rparr>)" using reachable_resending by simp
  show ?thesis
    using countdown_lock[OF reachable_initial a, of "\<lambda>code ref. Resolved ''1000''" "''ref-1''"]
      countdown_lock[OF reachable_expired b, of "\<lambda>code ref. Resolved ''1000''" "''ref-1''"]
      countdown_lock[OF d c, of "\<lambda>code ref. Resolved ''1000''" "''ref-1''"]
      reachable_initial reachable_expired d a b c
    by simp
qed

end
